theory Spec2Isabelle
  imports Complex_Main
begin

section \<open>Python values\<close>

text \<open>
  \<^verbatim>\<open>graph.py\<close> passes the escalation request from the tool to the \<^verbatim>\<open>human\<close> node as
  JSON text: the tool writes it with \<^verbatim>\<open>json.dumps\<close>, the node reads it with
  \<^verbatim>\<open>json.loads\<close>. Both belong to Python's standard library. A value that
  \<^verbatim>\<open>json.loads\<close> can return is a \<open>json\<close>: \<^verbatim>\<open>None\<close>, a bool, an int, a float, a
  str, a list or a dict with string keys (an association list read with \<open>map_of\<close>).
\<close>

datatype pyfloat = Finite real | PosInf | NegInf | NaN

datatype json =
    JNull
  | JBool bool
  | JInt int
  | JFloat pyfloat
  | JStr string
  | JArr "json list"
  | JObj "(string \<times> json) list"

text \<open>
  The content of a tool message is a Python \<^verbatim>\<open>str\<close>. The program only ever writes it
  with \<^verbatim>\<open>json.dumps\<close> and reads it with \<^verbatim>\<open>json.loads\<close>, so the model keeps of such a
  text what \<^verbatim>\<open>json.loads\<close> makes of it: the document it denotes (\<open>Json v\<close>), or the
  fact that it is not JSON (\<open>NotJson\<close>), on which \<^verbatim>\<open>json.loads\<close> raises
  \<^verbatim>\<open>JSONDecodeError\<close>.
\<close>

datatype json_text = Json json | NotJson

datatype error =
    JSONDecodeError
  | AttributeError
  | KeyError
  | IndexError
  | TypeError
  | ValueError
  | GraphRecursionError

definition json_dumps :: "json \<Rightarrow> json_text" where
  "json_dumps v = Json v"

definition json_loads :: "json_text \<Rightarrow> error + json" where
  "json_loads t = (case t of Json v \<Rightarrow> Inr v | NotJson \<Rightarrow> Inl JSONDecodeError)"

text \<open>\<^verbatim>\<open>bool(v)\<close>, the test an \<^verbatim>\<open>if\<close> makes of a value.\<close>

fun truthy :: "json \<Rightarrow> bool" where
  "truthy JNull = False"
| "truthy (JBool b) = b"
| "truthy (JInt n) = (n \<noteq> 0)"
| "truthy (JFloat f) = (f \<noteq> Finite 0)"
| "truthy (JStr s) = (s \<noteq> [])"
| "truthy (JArr xs) = (xs \<noteq> [])"
| "truthy (JObj kvs) = (kvs \<noteq> [])"

text \<open>
  \<^verbatim>\<open>v.get(k)\<close>: only a dict has the method (\<^verbatim>\<open>AttributeError\<close> otherwise), and a
  missing key gives \<^verbatim>\<open>None\<close>.
\<close>

fun dict_get :: "json \<Rightarrow> string \<Rightarrow> error + json" where
  "dict_get (JObj kvs) k = Inr (case map_of kvs k of None \<Rightarrow> JNull | Some v \<Rightarrow> v)"
| "dict_get _ k = Inl AttributeError"

text \<open>
  \<^verbatim>\<open>v[k]\<close> with a string \<^verbatim>\<open>k\<close>: on a dict a missing key raises \<^verbatim>\<open>KeyError\<close>; a value of
  another type cannot be indexed by a string (\<^verbatim>\<open>TypeError\<close>).
\<close>

fun subscript :: "json \<Rightarrow> string \<Rightarrow> error + json" where
  "subscript (JObj kvs) k = (case map_of kvs k of None \<Rightarrow> Inl KeyError | Some v \<Rightarrow> Inr v)"
| "subscript _ k = Inl TypeError"

section \<open>Messages and the graph state\<close>

text \<open>
  The message classes of \<^verbatim>\<open>langchain_core.messages\<close> that the program meets. A human
  message has an optional \<^verbatim>\<open>name\<close>; an AI message carries the tool calls the model
  requests, each one a call of the only bound tool \<^verbatim>\<open>human_help\<close> with its
  \<^verbatim>\<open>query\<close> argument (\<^verbatim>\<open>tools = [human_help]\<close>).
\<close>

datatype message =
    SystemMessage string
  | HumanMessage string "string option"
  | AIMessage string "string list"
  | ToolMessage json_text

fun msg_type :: "message \<Rightarrow> string" where
  "msg_type (SystemMessage c) = ''system''"
| "msg_type (HumanMessage c n) = ''human''"
| "msg_type (AIMessage c tcs) = ''ai''"
| "msg_type (ToolMessage t) = ''tool''"


text \<open>\<^verbatim>\<open>TypedDict("State", {"messages": Annotated[list, add_messages]})\<close>\<close>

record State =
  messages :: "message list"

text \<open>
  What a node function does when called: it returns a state update, or its call of
  \<^verbatim>\<open>interrupt\<close> stops it with a payload, or it raises.
\<close>

datatype node_result =
    Update "message list"
  | Interrupted json
  | Raised error

section \<open>Logic and tools\<close>

text \<open>
  \<^verbatim>\<open>
  @tool
  def human_help(query: str) -> str:
      return json.dumps({"need_human": True, "query": query})
  \<close>
\<close>

definition human_help :: "string \<Rightarrow> json_text" where
  "human_help query = json_dumps (JObj [(''need_human'', JBool True), (''query'', JStr query)])"

text \<open>
  The language model, bound to the tools, is a collaborator: given the prompt it returns
  the content and the tool calls of an AI message.
\<close>

type_synonym collaborator = "message list \<Rightarrow> string \<times> string list"

definition chatbot :: "collaborator \<Rightarrow> State \<Rightarrow> node_result" where
  "chatbot llm state =
     (case llm (SystemMessage ''If user needs help, call human_help tool.'' # messages state) of
        (c, tcs) \<Rightarrow> Update [AIMessage c tcs])"

text \<open>
  Modelled from the spec: \<^verbatim>\<open>interrupt\<close> of \<^verbatim>\<open>langgraph.types\<close> is not under src/. It is
  the interrupt channel of the \<^verbatim>\<open>human\<close> node: without a resume value for the node it
  raises \<^verbatim>\<open>GraphInterrupt\<close> carrying \<^verbatim>\<open>value\<close> (\<open>Inl\<close>); when the graph is resumed with
  \<^verbatim>\<open>Command(resume=ans)\<close> the node runs again from its first line and the call returns
  \<^verbatim>\<open>ans\<close> (\<open>Inr\<close>).
\<close>

definition interrupt :: "string option \<Rightarrow> json \<Rightarrow> json + string" where
  "interrupt resume v = (case resume of None \<Rightarrow> Inl v | Some ans \<Rightarrow> Inr ans)"

text \<open>
  \<^verbatim>\<open>
  def human_node(state):
      last = state["messages"][-1]
      if isinstance(last, ToolMessage) and json.loads(last.content).get("need_human"):
          query = json.loads(last.content)["query"]
          solution = interrupt({"query": query})
          return {"messages": [HumanMessage(f"SYSTEM: Admin resolved this: {solution}")]}
      return {"messages": []}
  \<close>
  The second argument is the resume value that \<^verbatim>\<open>interrupt\<close> finds, if any. The line
  the node prints to the terminal before it calls \<^verbatim>\<open>interrupt\<close> is left out.
\<close>

definition human_node :: "State \<Rightarrow> string option \<Rightarrow> node_result" where
  "human_node state resume =
     (if messages state = [] then Raised IndexError
      else case last (messages state) of
        ToolMessage c \<Rightarrow>
          (case json_loads c of
             Inl e \<Rightarrow> Raised e
           | Inr v \<Rightarrow>
               (case dict_get v ''need_human'' of
                  Inl e \<Rightarrow> Raised e
                | Inr flag \<Rightarrow>
                    if truthy flag then
                      (case json_loads c of
                         Inl e \<Rightarrow> Raised e
                       | Inr v' \<Rightarrow>
                           (case subscript v' ''query'' of
                              Inl e \<Rightarrow> Raised e
                            | Inr query \<Rightarrow>
                                (case interrupt resume (JObj [(''query'', query)]) of
                                   Inl payload \<Rightarrow> Interrupted payload
                                 | Inr solution \<Rightarrow>
                                     Update [HumanMessage
                                       (''SYSTEM: Admin resolved this: '' @ solution) None])))
                    else Update []))
      | _ \<Rightarrow> Update [])"

text \<open>
  Modelled from the spec: \<^verbatim>\<open>ToolNode(tools)\<close> of \<^verbatim>\<open>langgraph.prebuilt\<close> is not under
  src/. It is the tool-execution node: it runs the tool calls that the last message, an
  AI message, requests, and returns one tool message per call, holding what the tool
  returned.
\<close>

definition ToolNode :: "(string \<Rightarrow> json_text) \<Rightarrow> State \<Rightarrow> node_result" where
  "ToolNode tool state =
     (if messages state = [] then Raised ValueError
      else case last (messages state) of
        AIMessage c tcs \<Rightarrow> Update (map (\<lambda>query. ToolMessage (tool query)) tcs)
      | _ \<Rightarrow> Raised ValueError)"

text \<open>
  Modelled from the spec: \<^verbatim>\<open>tools_condition\<close> of \<^verbatim>\<open>langgraph.prebuilt\<close> is not under
  src/. It is the condition of the branch after the decide node: \<^verbatim>\<open>"tools"\<close> iff the
  last message, the collaborator's response, requests a tool call, \<^verbatim>\<open>"__end__"\<close>
  otherwise.
\<close>

definition tools_condition :: "State \<Rightarrow> error + string" where
  "tools_condition state =
     (if messages state = [] then Inl ValueError
      else case last (messages state) of
        AIMessage c tcs \<Rightarrow> if tcs \<noteq> [] then Inr ''tools'' else Inr ''__end__''
      | _ \<Rightarrow> Inr ''__end__'')"

section \<open>Graph definition\<close>

abbreviation START :: string where
  "START \<equiv> ''__start__''"

abbreviation END :: string where
  "END \<equiv> ''__end__''"

text \<open>
  Modelled from the spec: the builder class \<^verbatim>\<open>StateGraph\<close> of \<^verbatim>\<open>langgraph.graph\<close> is not
  under src/. It holds the workflow graph: the nodes by name, the plain edges, and the conditional
  edges (source, condition, mapping from the condition's result to the target). The
  calls \<^verbatim>\<open>add_node\<close>, \<^verbatim>\<open>add_edge\<close> and \<^verbatim>\<open>add_conditional_edges\<close> mutate the builder;
  here each returns the builder it leaves.
\<close>

type_synonym node_fn = "State \<Rightarrow> string option \<Rightarrow> node_result"

record StateGraph =
  nodes :: "(string \<times> node_fn) list"
  edges :: "(string \<times> string) list"
  branches :: "(string \<times> (State \<Rightarrow> error + string) \<times> (string \<times> string) list) list"

definition new_StateGraph :: StateGraph where
  "new_StateGraph = \<lparr>nodes = [], edges = [], branches = []\<rparr>"

definition add_node :: "StateGraph \<Rightarrow> string \<Rightarrow> node_fn \<Rightarrow> StateGraph" where
  "add_node workflow key f = workflow\<lparr>nodes := nodes workflow @ [(key, f)]\<rparr>"

definition add_edge :: "StateGraph \<Rightarrow> string \<Rightarrow> string \<Rightarrow> StateGraph" where
  "add_edge workflow a b = workflow\<lparr>edges := edges workflow @ [(a, b)]\<rparr>"

definition add_conditional_edges ::
  "StateGraph \<Rightarrow> string \<Rightarrow> (State \<Rightarrow> error + string) \<Rightarrow> (string \<times> string) list \<Rightarrow> StateGraph" where
  "add_conditional_edges workflow a path path_map =
     workflow\<lparr>branches := branches workflow @ [(a, path, path_map)]\<rparr>"

text \<open>
  Modelled from the spec: the persisted execution state, as \<^verbatim>\<open>get_state\<close> shows it to
  \<^verbatim>\<open>run_chat\<close> and \<^verbatim>\<open>run_admin\<close>, is not under src/. It holds the state values with the
  full message history and the tasks to run next (the node pointer), each with the
  interrupts it raised; an interrupt is kept as its payload, which the callers read as
  \<^verbatim>\<open>state.tasks[0].interrupts[0].value\<close>. The checkpointer keeps the latest persisted
  state of every thread id.
\<close>

record PregelTask =
  task_node :: string
  interrupts :: "json list"

record StateSnapshot =
  "values" :: State
  tasks :: "PregelTask list"

type_synonym MongoDBSaver = "string \<rightharpoonup> StateSnapshot"

text \<open>
  Modelled from the spec: the compiled graph that \<^verbatim>\<open>workflow.compile\<close> returns is not under
  src/. It is the graph definition, which the engine only reads, together with the
  checkpoint store the engine works on.
\<close>

record CompiledStateGraph =
  builder :: StateGraph
  checkpointer :: MongoDBSaver

definition compile :: "StateGraph \<Rightarrow> MongoDBSaver \<Rightarrow> CompiledStateGraph" where
  "compile workflow cp = \<lparr>builder = workflow, checkpointer = cp\<rparr>"

text \<open>
  \<^verbatim>\<open>
  def get_app(checkpointer):
      workflow = StateGraph(TypedDict("State", {"messages": Annotated[list, add_messages]}))
      workflow.add_node("bot", chatbot)
      workflow.add_node("tools", ToolNode(tools))
      workflow.add_node("human", human_node)
      workflow.add_edge(START, "bot")
      workflow.add_conditional_edges("bot", tools_condition, {"tools": "tools", "__end__": END})
      workflow.add_edge("tools", "human")
      workflow.add_edge("human", "bot")
      return workflow.compile(checkpointer=checkpointer)
  \<close>
  The module's global \<^verbatim>\<open>llm\<close> is the first argument.
\<close>

definition get_app :: "collaborator \<Rightarrow> MongoDBSaver \<Rightarrow> CompiledStateGraph" where
  "get_app llm cp =
     (let workflow = new_StateGraph;
          workflow = add_node workflow ''bot'' (\<lambda>state resume. chatbot llm state);
          workflow = add_node workflow ''tools'' (\<lambda>state resume. ToolNode human_help state);
          workflow = add_node workflow ''human'' human_node;
          workflow = add_edge workflow START ''bot'';
          workflow = add_conditional_edges workflow ''bot'' tools_condition
                       [(''tools'', ''tools''), (''__end__'', END)];
          workflow = add_edge workflow ''tools'' ''human'';
          workflow = add_edge workflow ''human'' ''bot''
      in compile workflow cp)"

section \<open>The execution engine\<close>

text \<open>
  The execution engine is the \<^verbatim>\<open>langgraph\<close> package: the reducer \<^verbatim>\<open>add_messages\<close> and the
  methods \<^verbatim>\<open>get_state\<close>, \<^verbatim>\<open>invoke\<close> and \<^verbatim>\<open>stream\<close> of the compiled graph. It is not under
  src/; only its callers \<^verbatim>\<open>get_app\<close>, \<^verbatim>\<open>run_chat\<close> and \<^verbatim>\<open>run_admin\<close> are. The definitions
  of this section follow the spec's sections 3 and 4.
\<close>

text \<open>
  Modelled from the spec: the reducer \<^verbatim>\<open>add_messages\<close> is not under src/. The message
  history is never reordered or changed after an append, only appended to: a state
  update adds its messages at the end.
\<close>

definition add_messages :: "message list \<Rightarrow> message list \<Rightarrow> message list" where
  "add_messages left right = left @ right"

definition apply_update :: "State \<Rightarrow> message list \<Rightarrow> State" where
  "apply_update state delta = state\<lparr>messages := add_messages (messages state) delta\<rparr>"

text \<open>
  Modelled from the spec: the engine's successor logic is not under src/. The
  transition out of a node is its conditional edge if it has one, the condition's
  result looked up in the mapping; its plain edge otherwise; the end marker when no
  transition exists.
\<close>

definition successor :: "StateGraph \<Rightarrow> string \<Rightarrow> State \<Rightarrow> error + string" where
  "successor g n state =
     (case map_of (branches g) n of
        Some (path, path_map) \<Rightarrow>
          (case path state of
             Inl e \<Rightarrow> Inl e
           | Inr r \<Rightarrow> (case map_of path_map r of None \<Rightarrow> Inl KeyError | Some t \<Rightarrow> Inr t))
      | None \<Rightarrow> (case map_of (edges g) n of None \<Rightarrow> Inr END | Some t \<Rightarrow> Inr t))"

text \<open>
  Modelled from the spec: how a call of the engine ends, and the state it persists
  after a node (the state values and the node to run next, with no interrupt), are not
  under src/. A call ends when the graph reaches the end marker, when a node suspends,
  or when a node fails.
\<close>

datatype run_end = Finished | Suspended | Failed error

definition pending_task :: "string \<Rightarrow> PregelTask" where
  "pending_task n = \<lparr>task_node = n, interrupts = []\<rparr>"

definition checkpoint :: "State \<Rightarrow> string \<Rightarrow> StateSnapshot" where
  "checkpoint state n = \<lparr>values = state, tasks = (if n = END then [] else [pending_task n])\<rparr>"

text \<open>
  Modelled from the spec: the engine's loop is not under src/. It executes one node at
  a time, starting with node \<open>n\<close>, which gets the resume value if the call is a resume.
  After each node it persists the full updated state before it evaluates the next
  transition. A node that suspends leaves the state it ran on, with a pending interrupt
  holding its payload, and stops the call; a node that fails leaves the persisted state
  as it was. The first argument bounds the number of node executions of one call (the
  recursion limit of the engine, 25 unless configured). The result is the list of the
  checkpoints the call persists, in order, and how the call ends.
\<close>

fun pregel_loop ::
  "StateGraph \<Rightarrow> nat \<Rightarrow> string \<Rightarrow> string option \<Rightarrow> State \<Rightarrow> StateSnapshot list \<times> run_end" where
  "pregel_loop g 0 n resume state = ([], Failed GraphRecursionError)"
| "pregel_loop g (Suc k) n resume state =
     (case map_of (nodes g) n of
        None \<Rightarrow> ([], Failed KeyError)
      | Some f \<Rightarrow>
          (case f state resume of
             Raised e \<Rightarrow> ([], Failed e)
           | Interrupted payload \<Rightarrow>
               ([\<lparr>values = state, tasks = [\<lparr>task_node = n, interrupts = [payload]\<rparr>]\<rparr>],
                Suspended)
           | Update delta \<Rightarrow>
               (let state' = apply_update state delta in
                case successor g n state' of
                  Inl e \<Rightarrow> ([], Failed e)
                | Inr n' \<Rightarrow>
                    if n' = END then ([checkpoint state' n'], Finished)
                    else (case pregel_loop g k n' None state' of
                            (cps, r) \<Rightarrow> (checkpoint state' n' # cps, r)))))"

definition recursion_limit :: nat where
  "recursion_limit = 25"

text \<open>
  \<^verbatim>\<open>app.get_state(config)\<close> is not under src/ either; the model takes it from its callers.
  It is a read-only snapshot of the latest checkpoint of the thread. \<^verbatim>\<open>run_chat\<close> calls
  it on its thread before the first \<^verbatim>\<open>invoke\<close> and reads the result with
  \<^verbatim>\<open>state.values.get("messages", [])\<close>, and both callers test \<^verbatim>\<open>state.tasks\<close> for
  emptiness: on a thread id the checkpointer has never seen it returns a snapshot with
  no values and no tasks, and raises nothing.
\<close>

definition get_state :: "CompiledStateGraph \<Rightarrow> string \<Rightarrow> StateSnapshot" where
  "get_state app thread_id =
     (case checkpointer app thread_id of
        None \<Rightarrow> \<lparr>values = \<lparr>messages = []\<rparr>, tasks = []\<rparr>
      | Some snapshot \<Rightarrow> snapshot)"

text \<open>
  Modelled from the spec: the write to the checkpoint store is not under src/. The
  store keeps the latest persisted state of the thread.
\<close>

definition persist :: "CompiledStateGraph \<Rightarrow> string \<Rightarrow> StateSnapshot list \<Rightarrow> CompiledStateGraph" where
  "persist app thread_id cps =
     (if cps = [] then app
      else app\<lparr>checkpointer := (checkpointer app)(thread_id \<mapsto> last cps)\<rparr>)"

text \<open>
  Modelled from the spec: the method \<^verbatim>\<open>invoke\<close> is not under src/. For the call
  \<^verbatim>\<open>app.invoke({"messages": [("user", txt)]}, config)\<close> it appends the user's message, a
  human message without a name, to the thread's history (creating the thread if
  absent), persists that, and executes nodes from the entry of the graph, the
  successor of the start marker, until the call ends.
\<close>

definition invoke_run ::
  "CompiledStateGraph \<Rightarrow> string \<Rightarrow> string \<Rightarrow> StateSnapshot list \<times> run_end" where
  "invoke_run app thread_id txt =
     (let state = apply_update (values (get_state app thread_id)) [HumanMessage txt None] in
      case successor (builder app) START state of
        Inl e \<Rightarrow> ([], Failed e)
      | Inr n \<Rightarrow>
          if n = END then ([checkpoint state n], Finished)
          else (case pregel_loop (builder app) recursion_limit n None state of
                  (cps, r) \<Rightarrow> (checkpoint state n # cps, r)))"

definition invoke :: "CompiledStateGraph \<Rightarrow> string \<Rightarrow> string \<Rightarrow> CompiledStateGraph \<times> run_end" where
  "invoke app thread_id txt =
     (case invoke_run app thread_id txt of (cps, r) \<Rightarrow> (persist app thread_id cps, r))"

text \<open>
  Modelled from the spec: the method \<^verbatim>\<open>stream\<close> is not under src/. For the call
  \<^verbatim>\<open>app.stream(Command(resume=ans), config, stream_mode="values")\<close> on a snapshot whose
  first task is \<open>t\<close>, it feeds the answer into the suspended node as its continuation
  value: the node runs again, the pending interrupt is gone from the states persisted
  from then on, and the graph continues from the node's successor as in \<^verbatim>\<open>invoke\<close>.
\<close>

definition stream_resume ::
  "CompiledStateGraph \<Rightarrow> StateSnapshot \<Rightarrow> PregelTask \<Rightarrow> string \<Rightarrow> StateSnapshot list \<times> run_end" where
  "stream_resume app snapshot t ans =
     pregel_loop (builder app) recursion_limit (task_node t) (Some ans) (values snapshot)"

section \<open>Execution\<close>

text \<open>What the two modes print, one value per \<^verbatim>\<open>print\<close> call.\<close>

datatype printed =
    SystemLine string
  | AILine string
  | UserAsks json
  | AIResumed string
  | NoPendingTasks

text \<open>
  The body of the display loop of \<^verbatim>\<open>run_chat\<close>, for one message:
  \<^verbatim>\<open>
  if isinstance(msg, HumanMessage) and msg.name != "user":
      print(f"\nSYSTEM: {msg.content}")
  elif hasattr(msg, "content") and msg.content and msg.type == "ai":
      print(f"\nAI: {msg.content}")
  \<close>
\<close>

fun display :: "message \<Rightarrow> printed list" where
  "display (HumanMessage c n) = (if n \<noteq> Some ''user'' then [SystemLine c] else [])"
| "display (AIMessage c tcs) = (if c \<noteq> [] then [AILine c] else [])"
| "display (SystemMessage c) = []"
| "display (ToolMessage t) = []"

text \<open>\<^verbatim>\<open>for msg in msgs[last_msg_count:]: ...\<close>\<close>

definition display_new :: "message list \<Rightarrow> nat \<Rightarrow> printed list" where
  "display_new msgs last_msg_count = concat (map display (drop last_msg_count msgs))"

text \<open>
  The body of the loop over the events of the resumed run in \<^verbatim>\<open>run_admin\<close>, for one
  event. An event is the state a step leaves; its history is not empty, since the node
  that ran first read the last message.
\<close>

definition resumed_output :: "StateSnapshot \<Rightarrow> printed list" where
  "resumed_output event =
     (if messages (values event) = [] then []
      else case last (messages (values event)) of
        AIMessage c tcs \<Rightarrow> if c \<noteq> [] then [AIResumed c] else []
      | _ \<Rightarrow> [])"

text \<open>\<^verbatim>\<open>state.tasks[0].interrupts[0].value["query"]\<close>\<close>

definition interrupt_query :: "json \<Rightarrow> error + json" where
  "interrupt_query v = subscript v ''query''"

text \<open>
  \<^verbatim>\<open>
  def run_admin(thread_id="t1"):
      with MongoDBSaver.from_conn_string(DB_URI) as cp:
          app = get_app(cp)
          config = {"configurable": {"thread_id": thread_id}}
          state = app.get_state(config)
          if state.tasks and state.tasks[0].interrupts:
              query = state.tasks[0].interrupts[0].value["query"]
              print(f"User asks: {query}")
              ans = input("Admin Answer: ")
              for event in app.stream(Command(resume=ans), config, stream_mode="values"):
                  msg = event["messages"][-1]
                  if msg.type == "ai" and msg.content:
                      print(f"AI (Resumed): {msg.content}")
          else:
              print("No pending tasks.")
  \<close>
  The arguments are the collaborator, the contents of the database, the thread id and
  the line the admin types; the result is what is printed, the database afterwards and
  the exception that ends the call, if any.
\<close>

definition run_admin ::
  "collaborator \<Rightarrow> MongoDBSaver \<Rightarrow> string \<Rightarrow> string \<Rightarrow> printed list \<times> MongoDBSaver \<times> error option" where
  "run_admin llm cp thread_id ans =
     (let app = get_app llm cp;
          state = get_state app thread_id
      in if tasks state \<noteq> [] \<and> interrupts (hd (tasks state)) \<noteq> [] then
           (case interrupt_query (hd (interrupts (hd (tasks state)))) of
              Inl e \<Rightarrow> ([], cp, Some e)
            | Inr query \<Rightarrow>
                (case stream_resume app state (hd (tasks state)) ans of
                   (cps, r) \<Rightarrow>
                     (UserAsks query # concat (map resumed_output cps),
                      checkpointer (persist app thread_id cps),
                      case r of Failed e \<Rightarrow> Some e | _ \<Rightarrow> None)))
         else ([NoPendingTasks], cp, None))"

text \<open>
  One turn of \<^verbatim>\<open>run_chat\<close> with a line of input that is not a quit command:
  \<^verbatim>\<open>app.invoke({"messages": [("user", txt)]}, config)\<close> on the app built over the
  database.
\<close>

definition chat_invoke :: "collaborator \<Rightarrow> MongoDBSaver \<Rightarrow> string \<Rightarrow> string \<Rightarrow> MongoDBSaver" where
  "chat_invoke llm cp thread_id txt = checkpointer (fst (invoke (get_app llm cp) thread_id txt))"

fun chat_invokes :: "collaborator \<Rightarrow> MongoDBSaver \<Rightarrow> string \<Rightarrow> string list \<Rightarrow> MongoDBSaver" where
  "chat_invokes llm cp thread_id [] = cp"
| "chat_invokes llm cp thread_id (txt # txts) =
     chat_invokes llm (chat_invoke llm cp thread_id txt) thread_id txts"

section \<open>The notions of the specification\<close>

text \<open>
  In the spec's words, a tool result is tagged as an escalation request when it is a
  structured marker whose need-human flag is true: a JSON object whose \<^verbatim>\<open>need_human\<close>
  entry is the value \<^verbatim>\<open>true\<close>.
\<close>

definition need_human_is_true :: "json_text \<Rightarrow> bool" where
  "need_human_is_true c =
     (case c of
        Json (JObj kvs) \<Rightarrow> map_of kvs ''need_human'' = Some (JBool True)
      | _ \<Rightarrow> False)"

text \<open>
  The marker of the spec, \<^verbatim>\<open>{needHuman: true, query: <text>}\<close>, also carries the query, a
  text; \<open>escalation_marker\<close> gives the query text of a tool result that is such a marker.
\<close>

definition escalation_marker :: "json_text \<Rightarrow> string option" where
  "escalation_marker c =
     (case c of
        Json (JObj kvs) \<Rightarrow>
          (if map_of kvs ''need_human'' = Some (JBool True) then
             (case map_of kvs ''query'' of Some (JStr q) \<Rightarrow> Some q | _ \<Rightarrow> None)
           else None)
      | _ \<Rightarrow> None)"

text \<open>
  The JSON values that count as false in Python: \<^verbatim>\<open>None\<close>, \<^verbatim>\<open>False\<close>, the numbers zero, the
  empty string, the empty list and the empty dict.
\<close>

definition falsy :: "json \<Rightarrow> bool" where
  "falsy v =
     (v = JNull \<or> v = JBool False \<or> v = JInt 0 \<or> v = JFloat (Finite 0)
      \<or> v = JStr [] \<or> v = JArr [] \<or> v = JObj [])"

text \<open>
  The wider class of tool results that the amended statement about the \<^verbatim>\<open>human\<close> node
  speaks of: a JSON object that has a \<^verbatim>\<open>query\<close> entry, of any JSON type, and a
  \<^verbatim>\<open>need_human\<close> entry that is none of the values counting as false;
  \<open>escalation_request\<close> gives that query entry.
\<close>

definition escalation_request :: "json_text \<Rightarrow> json option" where
  "escalation_request c =
     (case c of
        Json (JObj kvs) \<Rightarrow>
          (case map_of kvs ''need_human'' of
             None \<Rightarrow> None
           | Some flag \<Rightarrow> if falsy flag then None else map_of kvs ''query'')
      | _ \<Rightarrow> None)"

text \<open>The pending interrupts of a thread's persisted state.\<close>

definition pending_interrupts :: "StateSnapshot \<Rightarrow> json list" where
  "pending_interrupts snapshot = concat (map interrupts (tasks snapshot))"

text \<open>The history of a thread in the database.\<close>

definition history :: "MongoDBSaver \<Rightarrow> string \<Rightarrow> message list" where
  "history cp thread_id = (case cp thread_id of None \<Rightarrow> [] | Some s \<Rightarrow> messages (values s))"

text \<open>
  A persisted state in which the thread is suspended at the \<^verbatim>\<open>human\<close> node for a query:
  its last message is a tool result tagged as an escalation request with that query,
  and its only task is the \<^verbatim>\<open>human\<close> node holding one interrupt, whose payload is
  \<^verbatim>\<open>{"query": query}\<close>.
\<close>

definition suspended_at :: "StateSnapshot \<Rightarrow> json \<Rightarrow> bool" where
  "suspended_at snapshot query =
     (messages (values snapshot) \<noteq> []
      \<and> (case last (messages (values snapshot)) of
           ToolMessage c \<Rightarrow> escalation_request c = Some query
         | _ \<Rightarrow> False)
      \<and> tasks snapshot = [\<lparr>task_node = ''human'', interrupts = [JObj [(''query'', query)]]\<rparr>])"

text \<open>The message that records the admin's answer.\<close>

definition resolution :: "string \<Rightarrow> message" where
  "resolution ans = HumanMessage (''SYSTEM: '' @ ''Admin resolved this: '' @ ans) None"

text \<open>
  The reachable contents of the database. Every checkpoint a call persists is an
  observable instant, so each of them gives a reachable database. A call computes its
  checkpoints from the database \<open>cp0\<close> it read when it started and writes them into the
  database as it is then, \<open>cp\<close>: with \<open>cp0 = cp\<close> the calls follow one another, otherwise
  other calls, on this thread or on others, have written in between. The collaborator
  may answer differently in every call.
\<close>

inductive reachable :: "MongoDBSaver \<Rightarrow> bool" where
  start: "reachable Map.empty"
| invoke_write:
    "reachable cp \<Longrightarrow> reachable cp0 \<Longrightarrow>
     s \<in> set (fst (invoke_run (get_app llm cp0) thread_id txt)) \<Longrightarrow>
     reachable (cp(thread_id \<mapsto> s))"
| resume_write:
    "reachable cp \<Longrightarrow> reachable cp0 \<Longrightarrow>
     tasks (get_state (get_app llm cp0) thread_id) \<noteq> [] \<Longrightarrow>
     interrupts (hd (tasks (get_state (get_app llm cp0) thread_id))) \<noteq> [] \<Longrightarrow>
     s \<in> set (fst (stream_resume (get_app llm cp0) (get_state (get_app llm cp0) thread_id)
                     (hd (tasks (get_state (get_app llm cp0) thread_id))) ans)) \<Longrightarrow>
     reachable (cp(thread_id \<mapsto> s))"

text \<open>
  The collaborator's replies to a sequence of inputs on a thread whose history is \<open>h\<close>:
  each reply answers the fixed system instruction followed by the history so far, that
  is \<open>h\<close>, the earlier inputs and replies, and the input of the call.
\<close>

fun replies :: "collaborator \<Rightarrow> message list \<Rightarrow> string list \<Rightarrow> (string \<times> string list) list" where
  "replies llm h [] = []"
| "replies llm h (txt # txts) =
     (let r = llm (SystemMessage ''If user needs help, call human_help tool.''
                     # h @ [HumanMessage txt None])
      in r # replies llm (h @ [HumanMessage txt None, AIMessage (fst r) (snd r)]) txts)"

text \<open>One call of the conversation: the user's input, then the collaborator's reply.\<close>

definition exchange :: "string \<times> string \<times> string list \<Rightarrow> message list" where
  "exchange e = (case e of (txt, c, tcs) \<Rightarrow> [HumanMessage txt None, AIMessage c tcs])"

section \<open>Examples\<close>

text \<open>A collaborator that answers directly, and one that asks for help.\<close>

definition direct_reply :: collaborator where
  "direct_reply prompt = (''We are open from 9 to 5.'', [])"

definition escalating :: collaborator where
  "escalating prompt = ([], [''refund request order 42''])"

text \<open>
  The thread of the refund scenario once the engine has suspended it: the user's
  message, the collaborator's request for help, the tool result, and the pending
  interrupt.
\<close>

definition refund_history :: "message list" where
  "refund_history =
     [HumanMessage ''I need a refund for order 42.'' None,
      AIMessage [] [''refund request order 42''],
      ToolMessage (human_help ''refund request order 42'')]"

definition refund_suspended :: StateSnapshot where
  "refund_suspended =
     \<lparr>values = \<lparr>messages = refund_history\<rparr>,
      tasks = [\<lparr>task_node = ''human'',
                interrupts = [JObj [(''query'', JStr ''refund request order 42'')]]\<rparr>]\<rparr>"

text \<open>The database after one exchange on thread \<^verbatim>\<open>t2\<close> that the collaborator answers.\<close>

definition hours_thread :: MongoDBSaver where
  "hours_thread = chat_invoke direct_reply Map.empty ''t2'' ''What are your hours?''"

section \<open>The graph that \<^verbatim>\<open>get_app\<close> builds\<close>

lemma builder_get_app:
  "builder (get_app llm cp) =
     \<lparr>nodes = [(''bot'', \<lambda>state resume. chatbot llm state),
               (''tools'', \<lambda>state resume. ToolNode human_help state),
               (''human'', human_node)],
      edges = [(START, ''bot''), (''tools'', ''human''), (''human'', ''bot'')],
      branches = [(''bot'', tools_condition, [(''tools'', ''tools''), (''__end__'', END)])]\<rparr>"
  by (simp add: get_app_def new_StateGraph_def add_node_def add_edge_def
      add_conditional_edges_def compile_def)

lemma checkpointer_get_app: "checkpointer (get_app llm cp) = cp"
  by (simp add: get_app_def compile_def)

lemma node_bot:
  "map_of (nodes (builder (get_app llm cp))) ''bot'' = Some (\<lambda>state resume. chatbot llm state)"
  by (simp add: builder_get_app)

lemma node_tools:
  "map_of (nodes (builder (get_app llm cp))) ''tools'' =
     Some (\<lambda>state resume. ToolNode human_help state)"
  by (simp add: builder_get_app)

lemma node_human: "map_of (nodes (builder (get_app llm cp))) ''human'' = Some human_node"
  by (simp add: builder_get_app)

lemma successor_start: "successor (builder (get_app llm cp)) START state = Inr ''bot''"
  by (simp add: builder_get_app successor_def)

lemma successor_bot:
  "successor (builder (get_app llm cp)) ''bot'' state =
     (case tools_condition state of Inl e \<Rightarrow> Inl e | Inr r \<Rightarrow> Inr r)"
  by (auto simp: builder_get_app successor_def tools_condition_def
        split: sum.splits message.splits)

lemma successor_tools: "successor (builder (get_app llm cp)) ''tools'' state = Inr ''human''"
  by (simp add: builder_get_app successor_def)

lemma successor_human: "successor (builder (get_app llm cp)) ''human'' state = Inr ''bot''"
  by (simp add: builder_get_app successor_def)

lemma messages_apply_update: "messages (apply_update state delta) = messages state @ delta"
  by (simp add: apply_update_def add_messages_def)

lemma state_eq: "apply_update state delta = \<lparr>messages = messages state @ delta\<rparr>"
  by (simp add: apply_update_def add_messages_def)

text \<open>
  C3. The workflow graph has exactly the nodes \<^verbatim>\<open>bot\<close> (decide), \<^verbatim>\<open>tools\<close> and \<^verbatim>\<open>human\<close>.
  Its edges are: start to \<^verbatim>\<open>bot\<close>; out of \<^verbatim>\<open>bot\<close>, once the collaborator's response is
  the last message of the state, to \<^verbatim>\<open>tools\<close> if and only if the response requests a
  tool call, and to the end otherwise; \<^verbatim>\<open>tools\<close> to \<^verbatim>\<open>human\<close> and \<^verbatim>\<open>human\<close> to \<^verbatim>\<open>bot\<close>
  whatever the state. The graph is configuration: it is the same for every content of
  the database, and \<^verbatim>\<open>invoke\<close> and the persisting of checkpoints leave it as it is.
\<close>

theorem workflow_graph:
  "map fst (nodes (builder (get_app llm cp))) = [''bot'', ''tools'', ''human'']
   \<and> map_of (nodes (builder (get_app llm cp))) ''bot'' = Some (\<lambda>state resume. chatbot llm state)
   \<and> map_of (nodes (builder (get_app llm cp))) ''tools'' =
       Some (\<lambda>state resume. ToolNode human_help state)
   \<and> map_of (nodes (builder (get_app llm cp))) ''human'' = Some human_node
   \<and> edges (builder (get_app llm cp)) =
       [(START, ''bot''), (''tools'', ''human''), (''human'', ''bot'')]
   \<and> map fst (branches (builder (get_app llm cp))) = [''bot'']
   \<and> successor (builder (get_app llm cp)) START state = Inr ''bot''
   \<and> successor (builder (get_app llm cp)) ''bot'' (apply_update state [AIMessage c tcs]) =
       Inr (if tcs \<noteq> [] then ''tools'' else END)
   \<and> successor (builder (get_app llm cp)) ''tools'' state = Inr ''human''
   \<and> successor (builder (get_app llm cp)) ''human'' state = Inr ''bot''
   \<and> builder (get_app llm cp') = builder (get_app llm cp)
   \<and> builder (fst (invoke (get_app llm cp) thread_id txt)) = builder (get_app llm cp)
   \<and> builder (persist (get_app llm cp) thread_id cps) = builder (get_app llm cp)"
  by (simp add: successor_start successor_bot successor_tools successor_human
        node_bot node_tools node_human
        tools_condition_def messages_apply_update invoke_def persist_def split: prod.splits)
     (simp add: builder_get_app)

section \<open>The tool\<close>

lemma falsy_truthy: "falsy v = (\<not> truthy v)"
  by (cases v) (auto simp: falsy_def)

lemma escalation_human_help: "escalation_request (human_help query) = Some (JStr query)"
  by (simp add: human_help_def json_dumps_def escalation_request_def falsy_def)

text \<open>
  C5. For every query string, \<^verbatim>\<open>human_help\<close> is a function of its argument alone (it
  reads and writes no state) and returns exactly the JSON text of the marker
  \<^verbatim>\<open>{"need_human": true, "query": query}\<close>: reading the text back gives that marker, with
  the query unchanged, and the marker is an escalation request for that query.
\<close>

theorem human_help_returns_marker:
  "human_help query = json_dumps (JObj [(''need_human'', JBool True), (''query'', JStr query)])
   \<and> json_loads (human_help query) =
       Inr (JObj [(''need_human'', JBool True), (''query'', JStr query)])
   \<and> escalation_request (human_help query) = Some (JStr query)"
  by (simp add: human_help_def json_dumps_def json_loads_def escalation_request_def falsy_def)

section \<open>The human node\<close>

text \<open>What the node does on a state whose last message is a tool result, case by case.\<close>

lemma human_node_tool:
  assumes "messages state \<noteq> []" and "last (messages state) = ToolMessage c"
  shows "human_node state resume =
     (case c of
        NotJson \<Rightarrow> Raised JSONDecodeError
      | Json (JObj kvs) \<Rightarrow>
          (if truthy (case map_of kvs ''need_human'' of None \<Rightarrow> JNull | Some v \<Rightarrow> v) then
             (case map_of kvs ''query'' of
                None \<Rightarrow> Raised KeyError
              | Some query \<Rightarrow>
                  (case resume of
                     None \<Rightarrow> Interrupted (JObj [(''query'', query)])
                   | Some ans \<Rightarrow>
                       Update [HumanMessage (''SYSTEM: Admin resolved this: '' @ ans) None]))
           else Update [])
      | Json _ \<Rightarrow> Raised AttributeError)"
  using assms
  by (cases c; cases "case c of Json v \<Rightarrow> v")
     (auto simp: human_node_def json_loads_def interrupt_def
           split: option.splits json.splits)

lemma human_node_escalation:
  assumes "messages state \<noteq> []" and "last (messages state) = ToolMessage c"
    and "escalation_request c = Some query"
  shows "human_node state resume =
     (case resume of
        None \<Rightarrow> Interrupted (JObj [(''query'', query)])
      | Some ans \<Rightarrow> Update [resolution ans])"
  using assms(3) unfolding human_node_tool [OF assms(1,2)]
  by (auto simp: escalation_request_def resolution_def falsy_truthy
        split: json_text.splits json.splits option.splits if_splits)

lemma human_node_no_escalation:
  assumes "messages state \<noteq> []" and "last (messages state) = ToolMessage c"
    and "escalation_request c = None"
  shows "human_node state None \<noteq> Interrupted payload"
  using assms(3) unfolding human_node_tool [OF assms(1,2)]
  by (auto simp: escalation_request_def falsy_truthy
        split: json_text.splits json.splits option.splits if_splits)

lemma human_node_InterruptedD:
  assumes "human_node state resume = Interrupted payload"
  shows "messages state \<noteq> [] \<and> resume = None
     \<and> (\<exists>c query. last (messages state) = ToolMessage c \<and> escalation_request c = Some query
            \<and> payload = JObj [(''query'', query)])"
proof -
  have ne: "messages state \<noteq> []"
    using assms by (auto simp: human_node_def)
  from assms obtain c where l: "last (messages state) = ToolMessage c"
    using ne by (cases "last (messages state)") (auto simp: human_node_def)
  show ?thesis
    using assms ne l unfolding human_node_tool [OF ne l]
    by (auto simp: escalation_request_def falsy_truthy
          split: json_text.splits json.splits option.splits if_splits)
qed

lemma marker_is_request:
  "escalation_marker c = Some q \<Longrightarrow> escalation_request c = Some (JStr q)"
  by (auto simp: escalation_marker_def escalation_request_def falsy_def
        split: json_text.splits json.splits option.splits if_splits)

text \<open>
  C1, as stated, fails in both directions. The node suspends on the tool result
  \<^verbatim>\<open>{"need_human": "no", "query": 42}\<close>, whose flag is not true and whose query is not a
  text: the condition of the node is Python's truth test, which a non-empty string
  passes, and the query is taken as it is. And on \<^verbatim>\<open>{"need_human": true}\<close>, a marker whose
  flag is true, the node does not suspend: it raises \<^verbatim>\<open>KeyError\<close> when it reads the
  query.
\<close>

theorem human_node_suspends_counterexample:
  "\<not> need_human_is_true (Json (JObj [(''need_human'', JStr ''no''), (''query'', JInt 42)]))
   \<and> escalation_marker (Json (JObj [(''need_human'', JStr ''no''), (''query'', JInt 42)])) = None
   \<and> human_node
         \<lparr>messages = [ToolMessage (Json (JObj [(''need_human'', JStr ''no''),
                                                (''query'', JInt 42)]))]\<rparr> None
       = Interrupted (JObj [(''query'', JInt 42)])
   \<and> need_human_is_true (Json (JObj [(''need_human'', JBool True)]))
   \<and> human_node \<lparr>messages = [ToolMessage (Json (JObj [(''need_human'', JBool True)]))]\<rparr> None
       = Raised KeyError"
  by (simp add: need_human_is_true_def escalation_marker_def human_node_def json_loads_def
        interrupt_def)

text \<open>
  C1, amended. For every execution state whose last message is a tool result, the
  \<^verbatim>\<open>human\<close> node, run without a resume value, suspends if and only if the tool result is a
  JSON object that has a \<^verbatim>\<open>query\<close> entry, of any JSON type, and a \<^verbatim>\<open>need_human\<close> entry that
  is none of the values counting as false in Python. So it suspends on every marker
  \<^verbatim>\<open>{"need_human": true, "query": <text>}\<close>, and it returns the empty update when the
  tool result is a JSON object whose \<^verbatim>\<open>need_human\<close> entry is missing or \<^verbatim>\<open>false\<close>. When it
  suspends, the payload is \<^verbatim>\<open>{"query": query}\<close> with the query entry of the tool result,
  from which \<^verbatim>\<open>run_admin\<close> reads back exactly that query, and the engine persists the
  state with this one pending interrupt at the \<^verbatim>\<open>human\<close> node and ends the call there,
  suspended: no further node runs and the end is not reached.
\<close>

theorem human_node_suspends_iff:
  assumes "messages state \<noteq> []" and "last (messages state) = ToolMessage c"
  shows "((\<exists>payload. human_node state None = Interrupted payload)
            \<longleftrightarrow> (\<exists>query. escalation_request c = Some query))
     \<and> (\<forall>query. escalation_request c = Some query \<longrightarrow>
          human_node state None = Interrupted (JObj [(''query'', query)])
          \<and> interrupt_query (JObj [(''query'', query)]) = Inr query
          \<and> pregel_loop (builder (get_app llm cp)) (Suc k) ''human'' None state =
              ([\<lparr>values = state,
                 tasks = [\<lparr>task_node = ''human'',
                           interrupts = [JObj [(''query'', query)]]\<rparr>]\<rparr>],
               Suspended))
     \<and> (\<forall>q. escalation_marker c = Some q \<longrightarrow>
          human_node state None = Interrupted (JObj [(''query'', JStr q)]))
     \<and> (\<forall>kvs. c = Json (JObj kvs) \<longrightarrow>
          (map_of kvs ''need_human'' = None \<or> map_of kvs ''need_human'' = Some (JBool False)) \<longrightarrow>
          human_node state None = Update [])"
proof (intro conjI allI impI)
  show "(\<exists>payload. human_node state None = Interrupted payload)
          \<longleftrightarrow> (\<exists>query. escalation_request c = Some query)"
  proof (cases "escalation_request c")
    case None
    then show ?thesis using human_node_no_escalation [OF assms] by simp
  next
    case (Some query)
    then show ?thesis using human_node_escalation [OF assms, of query None] by simp
  qed
next
  fix query assume q: "escalation_request c = Some query"
  show h: "human_node state None = Interrupted (JObj [(''query'', query)])"
    using human_node_escalation [OF assms q, of None] by simp
  show "interrupt_query (JObj [(''query'', query)]) = Inr query"
    by (simp add: interrupt_query_def)
  show "pregel_loop (builder (get_app llm cp)) (Suc k) ''human'' None state =
          ([\<lparr>values = state,
             tasks = [\<lparr>task_node = ''human'', interrupts = [JObj [(''query'', query)]]\<rparr>]\<rparr>],
           Suspended)"
    by (simp add: node_human h)
next
  fix q assume "escalation_marker c = Some q"
  from human_node_escalation [OF assms marker_is_request [OF this], of None]
  show "human_node state None = Interrupted (JObj [(''query'', JStr q)])"
    by simp
next
  fix kvs
  assume c: "c = Json (JObj kvs)"
    and "map_of kvs ''need_human'' = None \<or> map_of kvs ''need_human'' = Some (JBool False)"
  then show "human_node state None = Update []"
    unfolding human_node_tool [OF assms] by auto
qed

theorem human_node_suspends_iff_witness:
  "human_node \<lparr>messages = refund_history\<rparr> None =
     Interrupted (JObj [(''query'', JStr ''refund request order 42'')])
   \<and> interrupt_query (JObj [(''query'', JStr ''refund request order 42'')]) =
       Inr (JStr ''refund request order 42'')
   \<and> pregel_loop (builder (get_app escalating Map.empty)) (Suc 0) ''human'' None
        \<lparr>messages = refund_history\<rparr> = ([refund_suspended], Suspended)"
proof -
  have ne: "messages \<lparr>messages = refund_history\<rparr> \<noteq> []"
    by (simp add: refund_history_def)
  have l: "last (messages \<lparr>messages = refund_history\<rparr>) =
             ToolMessage (human_help ''refund request order 42'')"
    by (simp add: refund_history_def)
  show ?thesis
    using human_node_suspends_iff [OF ne l, of escalating Map.empty 0]
      escalation_human_help [of "''refund request order 42''"]
    by (simp add: refund_suspended_def)
qed



text \<open>
  The user's own input, which \<^verbatim>\<open>invoke\<close> stores as a human message without a name, is
  printed as a system note as well.
\<close>

lemma display_user_input: "display (HumanMessage txt None) = [SystemLine txt]"
  by simp

text \<open>
  Where the node takes its no-op path: on a last message that is not a tool result, and
  on a tool result that is a JSON object whose \<^verbatim>\<open>need_human\<close> entry is missing or false.
\<close>

lemma human_node_not_tool:
  assumes "messages state \<noteq> []" and "\<And>c. last (messages state) \<noteq> ToolMessage c"
  shows "human_node state resume = Update []"
  using assms by (cases "last (messages state)") (auto simp: human_node_def)

lemma human_node_flag_false:
  assumes "messages state \<noteq> []" and "last (messages state) = ToolMessage (Json (JObj kvs))"
    and "\<not> truthy (case map_of kvs ''need_human'' of None \<Rightarrow> JNull | Some v \<Rightarrow> v)"
  shows "human_node state resume = Update []"
  using assms(3) unfolding human_node_tool [OF assms(1,2)] by simp

lemma loop_human_raises:
  "human_node state resume = Raised e \<Longrightarrow>
   pregel_loop (builder (get_app llm cp)) (Suc k) ''human'' resume state = ([], Failed e)"
  by (simp add: node_human)

text \<open>
  C6. The claim is that on a tool result that is not an escalation request the \<^verbatim>\<open>human\<close>
  node returns an empty state update and execution falls through to the successor. The
  code does so only when the tool result is a JSON object without a true \<^verbatim>\<open>need_human\<close>
  entry. A tool result that is not JSON, such as the error text the tool node returns
  for a call it cannot run, is not an escalation request either, and on it
  \<^verbatim>\<open>json.loads\<close> raises in the node's condition: the node raises
  \<^verbatim>\<open>JSONDecodeError\<close> where the claim has the empty update, and the call fails at the
  \<^verbatim>\<open>human\<close> node, with nothing persisted, where the claim has it continue.
\<close>

theorem human_node_raises_on_plain_tool_result:
  "escalation_request NotJson = None
   \<and> human_node \<lparr>messages = [HumanMessage ''What is the weather in Paris?'' None,
                             ToolMessage NotJson]\<rparr> None
       = Raised JSONDecodeError
   \<and> human_node \<lparr>messages = [HumanMessage ''What is the weather in Paris?'' None,
                             ToolMessage NotJson]\<rparr> None
       \<noteq> Update []
   \<and> pregel_loop (builder (get_app direct_reply Map.empty)) recursion_limit ''human'' None
        \<lparr>messages = [HumanMessage ''What is the weather in Paris?'' None,
                     ToolMessage NotJson]\<rparr>
       = ([], Failed JSONDecodeError)"
proof -
  have h: "human_node \<lparr>messages = [HumanMessage ''What is the weather in Paris?'' None,
                                   ToolMessage NotJson]\<rparr> None
             = Raised JSONDecodeError"
    by (simp add: human_node_def json_loads_def)
  show ?thesis
    using h loop_human_raises [OF h, of direct_reply Map.empty 24]
    by (simp add: escalation_request_def recursion_limit_def)
qed

section \<open>Runs of the graph\<close>

lemma pending_checkpoint: "pending_interrupts (checkpoint state n) = []"
  by (simp add: pending_interrupts_def checkpoint_def pending_task_def)

lemma values_checkpoint: "values (checkpoint state n) = state"
  by (simp add: checkpoint_def)

lemma suspended_atI:
  "messages state \<noteq> [] \<Longrightarrow> last (messages state) = ToolMessage c \<Longrightarrow>
   escalation_request c = Some query \<Longrightarrow>
   suspended_at \<lparr>values = state,
                 tasks = [\<lparr>task_node = ''human'', interrupts = [JObj [(''query'', query)]]\<rparr>]\<rparr>
     query"
  by (simp add: suspended_at_def)

lemma pending_suspended:
  "suspended_at s query \<Longrightarrow> pending_interrupts s = [JObj [(''query'', query)]]"
  by (simp add: suspended_at_def pending_interrupts_def)

text \<open>The run from the \<^verbatim>\<open>bot\<close> node when the collaborator answers directly.\<close>

lemma loop_bot_direct:
  assumes "llm (SystemMessage ''If user needs help, call human_help tool.'' # messages state)
             = (c, [])"
  shows "pregel_loop (builder (get_app llm cp)) (Suc k) ''bot'' resume state =
           ([checkpoint (apply_update state [AIMessage c []]) END], Finished)"
  using assms
  by (simp add: node_bot chatbot_def successor_bot tools_condition_def apply_update_def
        add_messages_def)

text \<open>
  The run from the \<^verbatim>\<open>bot\<close> node when the collaborator requests tool calls: the tool node
  answers each call, and the \<^verbatim>\<open>human\<close> node suspends on the last tool result.
\<close>

lemma loop_bot_escalate:
  assumes "llm (SystemMessage ''If user needs help, call human_help tool.'' # messages state)
             = (c, tcs)"
    and "tcs \<noteq> []"
  shows "pregel_loop (builder (get_app llm cp)) (Suc (Suc (Suc k))) ''bot'' resume state =
           (let state1 = apply_update state [AIMessage c tcs];
                state2 = apply_update state1 (map (\<lambda>query. ToolMessage (human_help query)) tcs)
            in ([checkpoint state1 ''tools'', checkpoint state2 ''human'',
                 \<lparr>values = state2,
                  tasks = [\<lparr>task_node = ''human'',
                            interrupts = [JObj [(''query'', JStr (last tcs))]]\<rparr>]\<rparr>],
                Suspended))"
proof -
  define state1 where "state1 = apply_update state [AIMessage c tcs]"
  define state2 where
    "state2 = apply_update state1 (map (\<lambda>query. ToolMessage (human_help query)) tcs)"
  have m1: "messages state1 = messages state @ [AIMessage c tcs]"
    by (simp add: state1_def messages_apply_update)
  have m2: "messages state2 =
              messages state1 @ map (\<lambda>query. ToolMessage (human_help query)) tcs"
    by (simp add: state2_def messages_apply_update)
  have l2: "messages state2 \<noteq> []" "last (messages state2) = ToolMessage (human_help (last tcs))"
    using assms(2) by (simp_all add: m2 last_map)
  have h: "pregel_loop (builder (get_app llm cp)) (Suc k) ''human'' None state2 =
             ([\<lparr>values = state2,
                tasks = [\<lparr>task_node = ''human'',
                          interrupts = [JObj [(''query'', JStr (last tcs))]]\<rparr>]\<rparr>], Suspended)"
    using human_node_escalation [OF l2 escalation_human_help, of None]
    by (simp add: node_human)
  have t: "pregel_loop (builder (get_app llm cp)) (Suc (Suc k)) ''tools'' None state1 =
             ([checkpoint state2 ''human'',
               \<lparr>values = state2,
                tasks = [\<lparr>task_node = ''human'',
                          interrupts = [JObj [(''query'', JStr (last tcs))]]\<rparr>]\<rparr>], Suspended)"
    using h by (simp add: node_tools ToolNode_def m1 successor_tools state2_def [symmetric])
  have b: "pregel_loop (builder (get_app llm cp)) (Suc (Suc (Suc k))) ''bot'' resume state =
             (checkpoint state1 ''tools''
                # fst (pregel_loop (builder (get_app llm cp)) (Suc (Suc k)) ''tools'' None state1),
              snd (pregel_loop (builder (get_app llm cp)) (Suc (Suc k)) ''tools'' None state1))"
    using assms
    by (simp add: node_bot chatbot_def successor_bot tools_condition_def m1
          state1_def [symmetric] split: prod.splits)
  show ?thesis
    unfolding b t by (simp add: Let_def state1_def [symmetric] state2_def [symmetric])
qed

text \<open>Both cases at once: how a run from the \<^verbatim>\<open>bot\<close> node ends and what it appends.\<close>

lemma loop_bot:
  assumes "llm (SystemMessage ''If user needs help, call human_help tool.'' # messages state)
             = (c, tcs)"
  shows "\<exists>cps r rest.
           pregel_loop (builder (get_app llm cp)) (Suc (Suc (Suc k))) ''bot'' resume state
             = (cps, r)
         \<and> cps \<noteq> [] \<and> (\<forall>e. r \<noteq> Failed e)
         \<and> messages (values (last cps)) = messages state @ rest
         \<and> filter (\<lambda>m. msg_type m = ''human'') rest = []
         \<and> (pending_interrupts (last cps) = []
            \<or> (tcs \<noteq> []
                \<and> rest = AIMessage c tcs # map (\<lambda>query. ToolMessage (human_help query)) tcs
                \<and> suspended_at (last cps) (JStr (last tcs))))"
proof (cases "tcs = []")
  case True
  then show ?thesis
    using loop_bot_direct [of llm state c cp "Suc (Suc k)" resume] assms
    by (simp add: pending_checkpoint values_checkpoint messages_apply_update)
next
  case False
  have "suspended_at
          \<lparr>values = apply_update (apply_update state [AIMessage c tcs])
                      (map (\<lambda>query. ToolMessage (human_help query)) tcs),
           tasks = [\<lparr>task_node = ''human'',
                     interrupts = [JObj [(''query'', JStr (last tcs))]]\<rparr>]\<rparr>
          (JStr (last tcs))"
    using False
    by (intro suspended_atI [where c = "human_help (last tcs)"])
       (simp_all add: messages_apply_update last_map escalation_human_help)
  then show ?thesis
    using loop_bot_escalate [of llm state c tcs cp k resume] assms False
    by (simp add: Let_def values_checkpoint messages_apply_update comp_def)
qed

text \<open>The resumed \<^verbatim>\<open>human\<close> node appends the resolution and hands over to the \<^verbatim>\<open>bot\<close> node.\<close>

lemma loop_human_resume:
  assumes "messages state \<noteq> []" and "last (messages state) = ToolMessage c"
    and "escalation_request c = Some query"
  shows "pregel_loop (builder (get_app llm cp)) (Suc k) ''human'' (Some ans) state =
           (checkpoint (apply_update state [resolution ans]) ''bot''
              # fst (pregel_loop (builder (get_app llm cp)) k ''bot'' None
                       (apply_update state [resolution ans])),
            snd (pregel_loop (builder (get_app llm cp)) k ''bot'' None
                   (apply_update state [resolution ans])))"
proof -
  have "human_node state (Some ans) = Update [resolution ans]"
    using human_node_escalation [OF assms, of "Some ans"] by simp
  then show ?thesis
    by (simp add: node_human successor_human Let_def split: prod.splits)
qed

lemma recursion_limit_Suc3: "recursion_limit = Suc (Suc (Suc 22))"
  by (simp add: recursion_limit_def)

lemma recursion_limit_Suc4: "recursion_limit = Suc (Suc (Suc (Suc 21)))"
  by (simp add: recursion_limit_def)

section \<open>The calls \<^verbatim>\<open>get_state\<close> and \<^verbatim>\<open>invoke\<close>\<close>

lemma get_state_Some:
  "cp thread_id = Some snapshot \<Longrightarrow> get_state (get_app llm cp) thread_id = snapshot"
  by (simp add: get_state_def checkpointer_get_app)

lemma get_state_None:
  "cp thread_id = None \<Longrightarrow>
   get_state (get_app llm cp) thread_id = \<lparr>values = \<lparr>messages = []\<rparr>, tasks = []\<rparr>"
  by (simp add: get_state_def checkpointer_get_app)

lemma messages_get_state:
  "messages (values (get_state (get_app llm cp) thread_id)) = history cp thread_id"
  by (simp add: get_state_def history_def checkpointer_get_app split: option.splits)

lemma history_update: "history (cp(thread_id \<mapsto> s)) thread_id = messages (values s)"
  by (simp add: history_def)

lemma invoke_run_bot:
  "invoke_run (get_app llm cp) thread_id txt =
     (checkpoint \<lparr>messages = history cp thread_id @ [HumanMessage txt None]\<rparr> ''bot''
        # fst (pregel_loop (builder (get_app llm cp)) recursion_limit ''bot'' None
                 \<lparr>messages = history cp thread_id @ [HumanMessage txt None]\<rparr>),
      snd (pregel_loop (builder (get_app llm cp)) recursion_limit ''bot'' None
             \<lparr>messages = history cp thread_id @ [HumanMessage txt None]\<rparr>))"
  by (simp add: invoke_run_def Let_def successor_start state_eq messages_get_state
        split: prod.splits)

lemma invoke_run_direct:
  assumes "llm (SystemMessage ''If user needs help, call human_help tool.''
                  # history cp thread_id @ [HumanMessage txt None]) = (c, [])"
  shows "invoke_run (get_app llm cp) thread_id txt =
           ([checkpoint \<lparr>messages = history cp thread_id @ [HumanMessage txt None]\<rparr> ''bot'',
             checkpoint
               \<lparr>messages = history cp thread_id @ [HumanMessage txt None, AIMessage c []]\<rparr> END],
            Finished)"
  unfolding invoke_run_bot recursion_limit_Suc3
  using loop_bot_direct [of llm "\<lparr>messages = history cp thread_id @ [HumanMessage txt None]\<rparr>"
          c cp "Suc (Suc 22)" None] assms
  by (simp add: state_eq)

lemma invoke_run_escalate:
  assumes "llm (SystemMessage ''If user needs help, call human_help tool.''
                  # history cp thread_id @ [HumanMessage txt None]) = (c, tcs)"
    and "tcs \<noteq> []"
  shows "invoke_run (get_app llm cp) thread_id txt =
           ([checkpoint \<lparr>messages = history cp thread_id @ [HumanMessage txt None]\<rparr> ''bot'',
             checkpoint
               \<lparr>messages = history cp thread_id @ [HumanMessage txt None, AIMessage c tcs]\<rparr>
               ''tools'',
             checkpoint
               \<lparr>messages = history cp thread_id @ [HumanMessage txt None, AIMessage c tcs]
                            @ map (\<lambda>query. ToolMessage (human_help query)) tcs\<rparr> ''human'',
             \<lparr>values = \<lparr>messages = history cp thread_id @ [HumanMessage txt None, AIMessage c tcs]
                            @ map (\<lambda>query. ToolMessage (human_help query)) tcs\<rparr>,
              tasks = [\<lparr>task_node = ''human'',
                        interrupts = [JObj [(''query'', JStr (last tcs))]]\<rparr>]\<rparr>],
            Suspended)"
  unfolding invoke_run_bot recursion_limit_Suc3
  using loop_bot_escalate [of llm "\<lparr>messages = history cp thread_id @ [HumanMessage txt None]\<rparr>"
          c tcs cp 22 None] assms
  by (simp add: state_eq Let_def)

text \<open>
  An invoke that the collaborator answers directly persists no pending interrupt at any
  point, and appends the input and the reply.
\<close>

lemma invoke_direct_no_interrupt:
  assumes "llm (SystemMessage ''If user needs help, call human_help tool.''
                  # history cp thread_id @ [HumanMessage txt None]) = (c, [])"
    and "s \<in> set (fst (invoke_run (get_app llm cp) thread_id txt))"
  shows "pending_interrupts s = []"
  using assms invoke_run_direct [of llm cp thread_id "txt" c]
  by (auto simp: pending_checkpoint)

lemma chat_invoke_direct:
  assumes "llm (SystemMessage ''If user needs help, call human_help tool.''
                  # history cp thread_id @ [HumanMessage txt None]) = (c, [])"
  shows "history (chat_invoke llm cp thread_id txt) thread_id =
           history cp thread_id @ [HumanMessage txt None, AIMessage c []]"
  using invoke_run_direct [of llm cp thread_id "txt" c] assms
  by (simp add: chat_invoke_def invoke_def persist_def checkpointer_get_app history_update
        values_checkpoint)

lemma chat_invoke_escalate:
  assumes "llm (SystemMessage ''If user needs help, call human_help tool.''
                  # history cp thread_id @ [HumanMessage txt None]) = (c, tcs)"
    and "tcs \<noteq> []"
  shows "chat_invoke llm cp thread_id txt =
           cp(thread_id \<mapsto>
             \<lparr>values = \<lparr>messages = history cp thread_id @ [HumanMessage txt None, AIMessage c tcs]
                            @ map (\<lambda>query. ToolMessage (human_help query)) tcs\<rparr>,
              tasks = [\<lparr>task_node = ''human'',
                        interrupts = [JObj [(''query'', JStr (last tcs))]]\<rparr>]\<rparr>)"
  using invoke_run_escalate [of llm cp thread_id "txt" c tcs] assms
  by (simp add: chat_invoke_def invoke_def persist_def checkpointer_get_app)

section \<open>Resume\<close>

text \<open>The checkpoints that a resume of a suspended thread persists.\<close>

lemma resume_trace:
  assumes "suspended_at snapshot query"
  shows "\<exists>cps r rest.
       stream_resume (get_app llm cp) snapshot (hd (tasks snapshot)) ans = (cps, r)
     \<and> (\<forall>e. r \<noteq> Failed e)
     \<and> cps \<noteq> []
     \<and> hd cps = checkpoint \<lparr>messages = messages (values snapshot) @ [resolution ans]\<rparr> ''bot''
     \<and> messages (values (last cps)) = messages (values snapshot) @ resolution ans # rest
     \<and> filter (\<lambda>m. msg_type m = ''human'') rest = []
     \<and> (pending_interrupts (last cps) = []
        \<or> (\<exists>c tcs. tcs \<noteq> []
              \<and> rest = AIMessage c tcs # map (\<lambda>q. ToolMessage (human_help q)) tcs
              \<and> suspended_at (last cps) (JStr (last tcs))))"
proof -
  define state where "state = values snapshot"
  define state' where "state' = apply_update state [resolution ans]"
  from assms obtain c where
    st: "messages state \<noteq> []" "last (messages state) = ToolMessage c"
        "escalation_request c = Some query"
    and tk: "tasks snapshot =
               [\<lparr>task_node = ''human'', interrupts = [JObj [(''query'', query)]]\<rparr>]"
    by (auto simp: suspended_at_def state_def split: message.splits)
  obtain c' tcs where reply:
    "llm (SystemMessage ''If user needs help, call human_help tool.'' # messages state')
       = (c', tcs)"
    by (cases "llm (SystemMessage ''If user needs help, call human_help tool.''
                      # messages state')")
  from loop_bot [of llm state' c' tcs cp 21 None] reply
  obtain cps r rest where
    run: "pregel_loop (builder (get_app llm cp)) (Suc (Suc (Suc 21))) ''bot'' None state'
            = (cps, r)"
    and ne: "cps \<noteq> []" and ok: "\<forall>e. r \<noteq> Failed e"
    and msgs: "messages (values (last cps)) = messages state' @ rest"
    and hum: "filter (\<lambda>m. msg_type m = ''human'') rest = []"
    and pend: "pending_interrupts (last cps) = []
            \<or> (tcs \<noteq> []
                \<and> rest = AIMessage c' tcs # map (\<lambda>query. ToolMessage (human_help query)) tcs
                \<and> suspended_at (last cps) (JStr (last tcs)))"
    by blast
  have "stream_resume (get_app llm cp) snapshot (hd (tasks snapshot)) ans =
          (checkpoint state' ''bot'' # cps, r)"
    using loop_human_resume [OF st, of llm cp "Suc (Suc (Suc 21))" ans] run
    by (simp add: stream_resume_def tk recursion_limit_Suc4 state_def [symmetric]
          state'_def [symmetric])
  moreover have "state' = \<lparr>messages = messages (values snapshot) @ [resolution ans]\<rparr>"
    by (simp add: state'_def state_eq state_def)
  moreover have "messages state' @ rest = messages (values snapshot) @ resolution ans # rest"
    by (simp add: state'_def messages_apply_update state_def)
  ultimately show ?thesis
    using ne ok msgs hum pend
    by (intro exI [of _ "checkpoint state' ''bot'' # cps"] exI [of _ r] exI [of _ rest]) auto
qed

text \<open>What \<^verbatim>\<open>run_admin\<close> does on a suspended thread.\<close>

lemma run_admin_resumes:
  assumes "cp thread_id = Some snapshot" and "suspended_at snapshot query"
  shows "\<exists>cps rest.
       fst (stream_resume (get_app llm cp) snapshot (hd (tasks snapshot)) ans) = cps
     \<and> run_admin llm cp thread_id ans =
         (UserAsks query # concat (map resumed_output cps), cp(thread_id \<mapsto> last cps), None)
     \<and> cps \<noteq> []
     \<and> hd cps = checkpoint \<lparr>messages = messages (values snapshot) @ [resolution ans]\<rparr> ''bot''
     \<and> messages (values (last cps)) = messages (values snapshot) @ resolution ans # rest
     \<and> filter (\<lambda>m. msg_type m = ''human'') rest = []
     \<and> (pending_interrupts (last cps) = []
        \<or> (\<exists>c tcs. tcs \<noteq> []
              \<and> rest = AIMessage c tcs # map (\<lambda>q. ToolMessage (human_help q)) tcs
              \<and> suspended_at (last cps) (JStr (last tcs))))"
proof -
  from resume_trace [OF assms(2), of llm cp ans] obtain cps r rest where
    tr: "stream_resume (get_app llm cp) snapshot (hd (tasks snapshot)) ans = (cps, r)"
    and ok: "\<forall>e. r \<noteq> Failed e" and ne: "cps \<noteq> []"
    and first: "hd cps =
                  checkpoint \<lparr>messages = messages (values snapshot) @ [resolution ans]\<rparr> ''bot''"
    and msgs: "messages (values (last cps)) = messages (values snapshot) @ resolution ans # rest"
    and hum: "filter (\<lambda>m. msg_type m = ''human'') rest = []"
    and pend: "pending_interrupts (last cps) = []
        \<or> (\<exists>c tcs. tcs \<noteq> []
              \<and> rest = AIMessage c tcs # map (\<lambda>q. ToolMessage (human_help q)) tcs
              \<and> suspended_at (last cps) (JStr (last tcs)))"
    by blast
  have tk: "tasks snapshot = [\<lparr>task_node = ''human'', interrupts = [JObj [(''query'', query)]]\<rparr>]"
    using assms(2) by (simp add: suspended_at_def)
  have r: "(case r of Failed e \<Rightarrow> Some e | _ \<Rightarrow> None) = None"
    using ok by (cases r) auto
  have "run_admin llm cp thread_id ans =
         (UserAsks query # concat (map resumed_output cps), cp(thread_id \<mapsto> last cps), None)"
    using tr ne r get_state_Some [of cp thread_id snapshot llm] assms(1)
    by (simp add: run_admin_def Let_def tk interrupt_query_def
          persist_def checkpointer_get_app)
  then show ?thesis
    using tr ne first msgs hum pend
    by (intro exI [of _ cps] exI [of _ rest]) simp
qed

text \<open>
  C2. For every thread suspended by an escalation and every answer string, the resume
  by \<^verbatim>\<open>run_admin\<close> appends exactly one new human-role message, the system-authored note:
  its content is \<^verbatim>\<open>SYSTEM: \<close> followed by \<^verbatim>\<open>Admin resolved this: \<close> and the literal answer.
  The first state the resume persists, right after the \<^verbatim>\<open>human\<close> node, is the old
  history with that note and no pending interrupt: the interrupt is removed, the
  state has no resolved flag to set. The call ends without an exception, and the
  messages after the note are the collaborator's reply and tool results only. If an
  interrupt is pending when the call ends, it is a new one, raised on a tool result
  that follows the note, for the query of the collaborator's new request.
\<close>

theorem resume_round_trip:
  assumes "cp thread_id = Some snapshot" and "suspended_at snapshot query"
  shows "\<exists>cps rest.
       fst (stream_resume (get_app llm cp) snapshot (hd (tasks snapshot)) ans) = cps
     \<and> run_admin llm cp thread_id ans =
         (UserAsks query # concat (map resumed_output cps), cp(thread_id \<mapsto> last cps), None)
     \<and> cps \<noteq> []
     \<and> hd cps = checkpoint \<lparr>messages = messages (values snapshot) @ [resolution ans]\<rparr> ''bot''
     \<and> pending_interrupts (hd cps) = []
     \<and> resolution ans = HumanMessage (''SYSTEM: '' @ ''Admin resolved this: '' @ ans) None
     \<and> messages (values (last cps)) = messages (values snapshot) @ resolution ans # rest
     \<and> filter (\<lambda>m. msg_type m = ''human'') (resolution ans # rest) = [resolution ans]
     \<and> (pending_interrupts (last cps) = []
        \<or> (\<exists>c tcs. tcs \<noteq> []
              \<and> rest = AIMessage c tcs # map (\<lambda>q. ToolMessage (human_help q)) tcs
              \<and> suspended_at (last cps) (JStr (last tcs))))"
proof -
  from run_admin_resumes [of cp thread_id snapshot query llm ans] assms
  obtain cps rest where
    "fst (stream_resume (get_app llm cp) snapshot (hd (tasks snapshot)) ans) = cps"
    "run_admin llm cp thread_id ans =
       (UserAsks query # concat (map resumed_output cps), cp(thread_id \<mapsto> last cps), None)"
    "cps \<noteq> []"
    "hd cps = checkpoint \<lparr>messages = messages (values snapshot) @ [resolution ans]\<rparr> ''bot''"
    "messages (values (last cps)) = messages (values snapshot) @ resolution ans # rest"
    "filter (\<lambda>m. msg_type m = ''human'') rest = []"
    "pending_interrupts (last cps) = []
        \<or> (\<exists>c tcs. tcs \<noteq> []
              \<and> rest = AIMessage c tcs # map (\<lambda>q. ToolMessage (human_help q)) tcs
              \<and> suspended_at (last cps) (JStr (last tcs)))"
    by blast
  then show ?thesis
    by (intro exI [of _ cps] exI [of _ rest]) (simp add: pending_checkpoint resolution_def)
qed

lemma refund_invoke:
  "chat_invoke escalating Map.empty ''t1'' ''I need a refund for order 42.'' =
     [''t1'' \<mapsto> refund_suspended]"
  using chat_invoke_escalate [of escalating Map.empty "''t1''" "''I need a refund for order 42.''"
          "[]" "[''refund request order 42'']"]
  by (simp add: escalating_def history_def refund_suspended_def refund_history_def)

lemma refund_suspended_at: "suspended_at refund_suspended (JStr ''refund request order 42'')"
  by (simp add: suspended_at_def refund_suspended_def refund_history_def escalation_human_help)

theorem resume_round_trip_witness:
  "chat_invoke escalating Map.empty ''t1'' ''I need a refund for order 42.'' ''t1''
     = Some refund_suspended
   \<and> suspended_at refund_suspended (JStr ''refund request order 42'')
   \<and> (\<exists>cps rest.
        run_admin direct_reply
          (chat_invoke escalating Map.empty ''t1'' ''I need a refund for order 42.'') ''t1''
          ''Refund approved, 5 business days.''
          = (UserAsks (JStr ''refund request order 42'') # concat (map resumed_output cps),
             (chat_invoke escalating Map.empty ''t1'' ''I need a refund for order 42.'')
               (''t1'' \<mapsto> last cps),
             None)
      \<and> pending_interrupts (hd cps) = []
      \<and> messages (values (last cps)) =
          refund_history
            @ HumanMessage ''SYSTEM: Admin resolved this: Refund approved, 5 business days.'' None
            # rest
      \<and> filter (\<lambda>m. msg_type m = ''human'') rest = [])"
proof -
  have a: "chat_invoke escalating Map.empty ''t1'' ''I need a refund for order 42.'' ''t1''
             = Some refund_suspended"
    by (simp add: refund_invoke)
  from resume_round_trip
      [of "chat_invoke escalating Map.empty ''t1'' ''I need a refund for order 42.''" "''t1''"
        refund_suspended "JStr ''refund request order 42''" direct_reply
        "''Refund approved, 5 business days.''"]
    a refund_suspended_at
  obtain cps rest where
    "run_admin direct_reply
       (chat_invoke escalating Map.empty ''t1'' ''I need a refund for order 42.'') ''t1''
       ''Refund approved, 5 business days.''
       = (UserAsks (JStr ''refund request order 42'') # concat (map resumed_output cps),
          (chat_invoke escalating Map.empty ''t1'' ''I need a refund for order 42.'')
            (''t1'' \<mapsto> last cps),
          None)"
    "pending_interrupts (hd cps) = []"
    "messages (values (last cps)) =
       messages (values refund_suspended)
         @ resolution ''Refund approved, 5 business days.'' # rest"
    "filter (\<lambda>m. msg_type m = ''human'')
       (resolution ''Refund approved, 5 business days.'' # rest)
       = [resolution ''Refund approved, 5 business days.'']"
    by blast
  then show ?thesis
    using a refund_suspended_at
    by (intro conjI exI [of _ cps] exI [of _ rest])
       (simp_all add: resolution_def refund_suspended_def)
qed

text \<open>
  C4. For every thread without a pending interrupt, whether the thread has a persisted
  state or not, \<^verbatim>\<open>run_admin\<close> does not resume anything: it reports that there are no
  pending tasks, raises nothing, and leaves the database exactly as it was.
\<close>

theorem resume_without_pending_interrupt:
  assumes "pending_interrupts (get_state (get_app llm cp) thread_id) = []"
  shows "run_admin llm cp thread_id ans = ([NoPendingTasks], cp, None)"
proof (cases "tasks (get_state (get_app llm cp) thread_id)")
  case Nil
  then show ?thesis by (simp add: run_admin_def Let_def)
next
  case (Cons t ts)
  then have "interrupts t = []"
    using assms by (simp add: pending_interrupts_def)
  then show ?thesis
    using Cons by (simp add: run_admin_def Let_def)
qed

lemma hours_thread_eq:
  "hours_thread =
     [''t2'' \<mapsto> checkpoint \<lparr>messages = [HumanMessage ''What are your hours?'' None,
                                         AIMessage ''We are open from 9 to 5.'' []]\<rparr> END]"
  using invoke_run_direct [of direct_reply Map.empty "''t2''" "''What are your hours?''"
          "''We are open from 9 to 5.''"]
  by (simp add: hours_thread_def chat_invoke_def invoke_def persist_def checkpointer_get_app
        direct_reply_def history_def)

lemma hours_thread_pending:
  "pending_interrupts (get_state (get_app direct_reply hours_thread) ''t2'') = []"
  by (simp add: hours_thread_eq get_state_def checkpointer_get_app pending_checkpoint)

theorem resume_without_pending_interrupt_witness:
  "pending_interrupts (get_state (get_app direct_reply hours_thread) ''t2'') = []
   \<and> run_admin direct_reply hours_thread ''t2'' ''Refund approved.'' =
       ([NoPendingTasks], hours_thread, None)"
  using resume_without_pending_interrupt [OF hours_thread_pending, of "''Refund approved.''"]
    hours_thread_pending
  by simp

text \<open>
  C8, as stated, fails. On the thread id \<^verbatim>\<open>t1\<close>, which the database \<^verbatim>\<open>hours_thread\<close> has
  never seen, \<^verbatim>\<open>get_state\<close> returns a snapshot, not an error, and \<^verbatim>\<open>run_admin\<close> prints the
  same line and raises as little as on the thread \<^verbatim>\<open>t2\<close>, which has a persisted state
  and no pending interrupt: the caller cannot tell the two cases apart.
\<close>

theorem thread_not_found_counterexample:
  "hours_thread ''t1'' = None
   \<and> hours_thread ''t2'' \<noteq> None
   \<and> get_state (get_app direct_reply hours_thread) ''t1'' =
       \<lparr>values = \<lparr>messages = []\<rparr>, tasks = []\<rparr>
   \<and> run_admin direct_reply hours_thread ''t1'' ''Refund approved.'' =
       ([NoPendingTasks], hours_thread, None)
   \<and> run_admin direct_reply hours_thread ''t2'' ''Refund approved.'' =
       ([NoPendingTasks], hours_thread, None)"
proof -
  have n: "hours_thread ''t1'' = None"
    by (simp add: hours_thread_eq)
  have "run_admin direct_reply hours_thread ''t2'' ''Refund approved.'' =
          ([NoPendingTasks], hours_thread, None)"
    using hours_thread_pending by (cases "tasks (get_state (get_app direct_reply hours_thread) ''t2'')")
      (simp_all add: run_admin_def Let_def pending_interrupts_def)
  then show ?thesis
    using n get_state_None [of hours_thread "''t1''" direct_reply]
    by (simp add: run_admin_def Let_def) (simp add: hours_thread_eq)
qed

text \<open>
  C8, amended. On a thread id that the database has never seen, \<^verbatim>\<open>get_state\<close> raises no
  error: it returns the snapshot with no messages and no tasks. \<^verbatim>\<open>run_admin\<close> then
  reports that there are no pending tasks, raises nothing and leaves the database as
  it was, which is what it does on any thread without a pending interrupt. The program
  has no error for a thread that is not found.
\<close>

theorem never_seen_thread:
  assumes "cp thread_id = None"
  shows "get_state (get_app llm cp) thread_id = \<lparr>values = \<lparr>messages = []\<rparr>, tasks = []\<rparr>
     \<and> run_admin llm cp thread_id ans = ([NoPendingTasks], cp, None)"
  using assms by (simp add: get_state_None run_admin_def Let_def)

theorem never_seen_thread_witness:
  "get_state (get_app escalating Map.empty) ''t1'' = \<lparr>values = \<lparr>messages = []\<rparr>, tasks = []\<rparr>
   \<and> run_admin escalating Map.empty ''t1'' ''Refund approved.'' =
       ([NoPendingTasks], Map.empty, None)"
  using never_seen_thread [of Map.empty "''t1''" escalating "''Refund approved.''"]
  by simp

section \<open>Pending interrupts in the reachable databases\<close>

text \<open>
  Every checkpoint that a run of the graph persists has no pending interrupt, or is
  suspended at the \<^verbatim>\<open>human\<close> node with exactly one.
\<close>

lemma loop_snapshots:
  "s \<in> set (fst (pregel_loop (builder (get_app llm cp)) k n resume state)) \<Longrightarrow>
   pending_interrupts s = [] \<or> (\<exists>query. suspended_at s query)"
proof (induction k arbitrary: n resume state)
  case 0
  then show ?case by simp
next
  case (Suc k)
  consider (bot) "n = ''bot''" | (tools) "n = ''tools''" | (human) "n = ''human''"
    | (other) "map_of (nodes (builder (get_app llm cp))) n = None"
    by (cases "n = ''bot''"; cases "n = ''tools''"; cases "n = ''human''")
       (auto simp: builder_get_app)
  then show ?case
  proof cases
    case bot
    obtain c tcs where reply:
      "llm (SystemMessage ''If user needs help, call human_help tool.'' # messages state)
         = (c, tcs)"
      by (cases "llm (SystemMessage ''If user needs help, call human_help tool.''
                        # messages state)")
    show ?thesis
    proof (cases "tcs = []")
      case True
      then show ?thesis
        using Suc.prems loop_bot_direct [of llm state c cp k resume] reply bot
        by (auto simp: pending_checkpoint)
    next
      case False
      then have "s = checkpoint (apply_update state [AIMessage c tcs]) ''tools''
          \<or> s \<in> set (fst (pregel_loop (builder (get_app llm cp)) k ''tools'' None
                             (apply_update state [AIMessage c tcs])))"
        using Suc.prems reply bot
        by (auto simp: node_bot chatbot_def successor_bot tools_condition_def
              messages_apply_update Let_def split: prod.splits)
      then show ?thesis
        using Suc.IH by (auto simp: pending_checkpoint)
    qed
  next
    case tools
    show ?thesis
    proof (cases "ToolNode human_help state")
      case (Update delta)
      then have "s = checkpoint (apply_update state delta) ''human''
          \<or> s \<in> set (fst (pregel_loop (builder (get_app llm cp)) k ''human'' None
                             (apply_update state delta)))"
        using Suc.prems tools
        by (auto simp: node_tools successor_tools Let_def split: prod.splits)
      then show ?thesis
        using Suc.IH by (auto simp: pending_checkpoint)
    next
      case (Interrupted payload)
      then show ?thesis
        using Suc.prems tools
        by (simp add: node_tools ToolNode_def split: if_splits message.splits)
    next
      case (Raised e)
      then show ?thesis
        using Suc.prems tools by (simp add: node_tools)
    qed
  next
    case human
    show ?thesis
    proof (cases "human_node state resume")
      case (Update delta)
      then have "s = checkpoint (apply_update state delta) ''bot''
          \<or> s \<in> set (fst (pregel_loop (builder (get_app llm cp)) k ''bot'' None
                             (apply_update state delta)))"
        using Suc.prems human
        by (auto simp: node_human successor_human Let_def split: prod.splits)
      then show ?thesis
        using Suc.IH by (auto simp: pending_checkpoint)
    next
      case (Interrupted payload)
      from human_node_InterruptedD [OF this] obtain c query where
        "messages state \<noteq> []" "last (messages state) = ToolMessage c"
        "escalation_request c = Some query" "payload = JObj [(''query'', query)]"
        by blast
      then have "suspended_at s query"
        using Suc.prems human Interrupted by (simp add: node_human suspended_at_def)
      then show ?thesis by blast
    next
      case (Raised e)
      then show ?thesis
        using Suc.prems human by (simp add: node_human)
    qed
  next
    case other
    then show ?thesis using Suc.prems by simp
  qed
qed

lemma invoke_snapshots:
  assumes "s \<in> set (fst (invoke_run (get_app llm cp) thread_id txt))"
  shows "pending_interrupts s = [] \<or> (\<exists>query. suspended_at s query)"
proof -
  have "s = checkpoint \<lparr>messages = history cp thread_id @ [HumanMessage txt None]\<rparr> ''bot''
      \<or> s \<in> set (fst (pregel_loop (builder (get_app llm cp)) recursion_limit ''bot'' None
                        \<lparr>messages = history cp thread_id @ [HumanMessage txt None]\<rparr>))"
    using assms unfolding invoke_run_bot by auto
  then show ?thesis
    using loop_snapshots [of s llm cp recursion_limit "''bot''" None
            "\<lparr>messages = history cp thread_id @ [HumanMessage txt None]\<rparr>"]
    by (auto simp: pending_checkpoint)
qed

lemma reachable_snapshots:
  "reachable cp \<Longrightarrow> cp thread_id = Some snapshot \<Longrightarrow>
   pending_interrupts snapshot = [] \<or> (\<exists>query. suspended_at snapshot query)"
proof (induction arbitrary: snapshot rule: reachable.induct)
  case start
  then show ?case by simp
next
  case (invoke_write cp cp0 s llm tid line)
  then show ?case
    using invoke_snapshots [of s llm cp0 tid line] by (auto split: if_splits)
next
  case (resume_write cp cp0 llm tid s ans)
  then show ?case
    using loop_snapshots [of s llm cp0 recursion_limit]
    by (auto simp: stream_resume_def split: if_splits)
qed

text \<open>
  C7. In every reachable database, whatever checkpoint of whatever call was written
  last, every thread has at most one pending interrupt. When it has one, the resume by
  \<^verbatim>\<open>run_admin\<close> removes it: the first state the resume persists has no pending interrupt
  at all (the state has no resolved flag that could be set instead), and its history
  is the old one with the note of the resolution appended, which stays in the history
  the call leaves.
\<close>

theorem at_most_one_pending_interrupt:
  assumes "reachable cp" and "snapshot = get_state (get_app llm cp) thread_id"
  shows "length (pending_interrupts snapshot) \<le> 1
     \<and> (pending_interrupts snapshot \<noteq> [] \<longrightarrow>
          (\<exists>cps rest.
             fst (stream_resume (get_app llm cp) snapshot (hd (tasks snapshot)) ans) = cps
           \<and> fst (snd (run_admin llm cp thread_id ans)) = cp(thread_id \<mapsto> last cps)
           \<and> cps \<noteq> []
           \<and> pending_interrupts (hd cps) = []
           \<and> messages (values (hd cps)) = messages (values snapshot) @ [resolution ans]
           \<and> messages (values (last cps)) = messages (values snapshot) @ resolution ans # rest))"
proof (cases "cp thread_id")
  case None
  then show ?thesis
    using assms(2) by (simp add: get_state_None pending_interrupts_def)
next
  case (Some s)
  then have s: "snapshot = s"
    using assms(2) get_state_Some [of cp thread_id s llm] by simp
  from reachable_snapshots [OF assms(1) Some]
  consider "pending_interrupts s = []" | query where "suspended_at s query"
    by blast
  then show ?thesis
  proof cases
    case 1
    then show ?thesis by (simp add: s)
  next
    case 2
    from run_admin_resumes [of cp thread_id s query llm ans] Some 2 obtain cps rest where
      "fst (stream_resume (get_app llm cp) s (hd (tasks s)) ans) = cps"
      "run_admin llm cp thread_id ans =
         (UserAsks query # concat (map resumed_output cps), cp(thread_id \<mapsto> last cps), None)"
      "cps \<noteq> []"
      "hd cps = checkpoint \<lparr>messages = messages (values s) @ [resolution ans]\<rparr> ''bot''"
      "messages (values (last cps)) = messages (values s) @ resolution ans # rest"
      by blast
    then show ?thesis
      using pending_suspended [OF 2]
      by (simp add: s pending_checkpoint values_checkpoint)
  qed
qed

lemma refund_reachable: "reachable [''t1'' \<mapsto> refund_suspended]"
proof -
  have "refund_suspended
          \<in> set (fst (invoke_run (get_app escalating Map.empty) ''t1''
                        ''I need a refund for order 42.''))"
    using invoke_run_escalate [of escalating Map.empty "''t1''"
            "''I need a refund for order 42.''" "[]" "[''refund request order 42'']"]
    by (simp add: escalating_def history_def refund_suspended_def refund_history_def)
  from invoke_write [OF start start this] show ?thesis .
qed

theorem at_most_one_pending_interrupt_witness:
  "reachable [''t1'' \<mapsto> refund_suspended]
   \<and> pending_interrupts (get_state (get_app direct_reply [''t1'' \<mapsto> refund_suspended]) ''t1'')
       = [JObj [(''query'', JStr ''refund request order 42'')]]
   \<and> (\<exists>cps rest.
         fst (snd (run_admin direct_reply [''t1'' \<mapsto> refund_suspended] ''t1''
                     ''Refund approved, 5 business days.''))
           = [''t1'' \<mapsto> last cps]
       \<and> pending_interrupts (hd cps) = []
       \<and> messages (values (hd cps)) =
           refund_history @ [resolution ''Refund approved, 5 business days.'']
       \<and> messages (values (last cps)) =
           refund_history @ resolution ''Refund approved, 5 business days.'' # rest)"
proof -
  have g: "get_state (get_app direct_reply [''t1'' \<mapsto> refund_suspended]) ''t1''
             = refund_suspended"
    by (simp add: get_state_def checkpointer_get_app)
  have p: "pending_interrupts refund_suspended
             = [JObj [(''query'', JStr ''refund request order 42'')]]"
    by (simp add: pending_suspended [OF refund_suspended_at])
  from at_most_one_pending_interrupt
      [of "[''t1'' \<mapsto> refund_suspended]" refund_suspended direct_reply "''t1''"
        "''Refund approved, 5 business days.''"]
    refund_reachable g p
  obtain cps rest where
    "fst (snd (run_admin direct_reply [''t1'' \<mapsto> refund_suspended] ''t1''
                 ''Refund approved, 5 business days.''))
       = [''t1'' \<mapsto> refund_suspended, ''t1'' \<mapsto> last cps]"
    "pending_interrupts (hd cps) = []"
    "messages (values (hd cps)) =
       messages (values refund_suspended) @ [resolution ''Refund approved, 5 business days.'']"
    "messages (values (last cps)) =
       messages (values refund_suspended)
         @ resolution ''Refund approved, 5 business days.'' # rest"
    by auto
  then show ?thesis
    using refund_reachable g p
    by (intro conjI exI [of _ cps] exI [of _ rest]) (simp_all add: refund_suspended_def)
qed

section \<open>Histories without escalation\<close>

text \<open>
  C9. For every sequence of invoke calls on one thread in which no reply of the
  collaborator requests a tool call, the history of the thread afterwards is its
  history before followed by the concatenation, in call order, of the exchanges: each
  user input, then the collaborator's reply to the history up to that input. Nothing is
  reordered, lost or duplicated.
\<close>

theorem history_is_concatenation:
  assumes "\<forall>r \<in> set (replies llm (history cp thread_id) txts). snd r = []"
  shows "history (chat_invokes llm cp thread_id txts) thread_id =
           history cp thread_id
             @ concat (map exchange (zip txts (replies llm (history cp thread_id) txts)))"
  using assms
proof (induction txts arbitrary: cp)
  case Nil
  then show ?case by simp
next
  case (Cons t txts)
  define r where
    "r = llm (SystemMessage ''If user needs help, call human_help tool.''
                # history cp thread_id @ [HumanMessage t None])"
  have r: "snd r = []"
    using Cons.prems by (simp add: Let_def r_def)
  then have reply: "llm (SystemMessage ''If user needs help, call human_help tool.''
                # history cp thread_id @ [HumanMessage t None]) = (fst r, [])"
    by (simp add: r_def [symmetric] prod_eq_iff)
  have h: "history (chat_invoke llm cp thread_id t) thread_id =
             history cp thread_id @ [HumanMessage t None, AIMessage (fst r) (snd r)]"
    using chat_invoke_direct [of llm cp thread_id t "fst r"] reply r by simp
  have "\<forall>x \<in> set (replies llm (history (chat_invoke llm cp thread_id t) thread_id) txts).
          snd x = []"
    using Cons.prems by (simp add: Let_def r_def [symmetric] h)
  from Cons.IH [OF this] show ?case
    by (simp add: Let_def r_def [symmetric] h exchange_def case_prod_beta)
qed

theorem history_is_concatenation_witness:
  "history (chat_invokes direct_reply Map.empty ''t2'' [''What are your hours?'', ''Thanks.''])
     ''t2'' =
     [HumanMessage ''What are your hours?'' None, AIMessage ''We are open from 9 to 5.'' [],
      HumanMessage ''Thanks.'' None, AIMessage ''We are open from 9 to 5.'' []]"
proof -
  have "\<forall>r \<in> set (replies direct_reply (history Map.empty ''t2'')
                     [''What are your hours?'', ''Thanks.'']). snd r = []"
    by (simp add: direct_reply_def Let_def)
  from history_is_concatenation [OF this] show ?thesis
    by (simp add: direct_reply_def Let_def exchange_def history_def)
qed


end
